theory Spec2Isabelle
  imports Complex_Main
begin

section \<open>The egress guard of \<^verbatim>\<open>src/security/ssrf.ts\<close>\<close>

subsection \<open>What the module imports\<close>

text \<open>
  \<^verbatim>\<open>ssrf.ts\<close> calls three things it does not define: the address library
  \<^verbatim>\<open>ipaddr.js\<close>, the platform's \<^verbatim>\<open>URL\<close> constructor and the resolver of
  \<^verbatim>\<open>node:dns/promises\<close>. They are parameters of the model. The library is a record of
  the six operations the module uses, over any representation \<open>'a\<close> of a parsed address;
  \<open>parse\<close> is only ever reached on a string that \<open>isValid\<close> accepted.
\<close>

record 'a ipaddr_js =
  isValid :: "string \<Rightarrow> bool"
  parse :: "string \<Rightarrow> 'a"
  kind :: "'a \<Rightarrow> string"
  isIPv4MappedAddress :: "'a \<Rightarrow> bool"
  toIPv4Address :: "'a \<Rightarrow> 'a"
  rangeOf :: "'a \<Rightarrow> string"

text \<open>The three members of a parsed \<^verbatim>\<open>URL\<close> that the module reads.\<close>

record url =
  protocol :: string
  hostname :: string
  toString :: string

text \<open>
  \<^verbatim>\<open>new URL(s)\<close> either throws (\<open>Inl\<close> the message of the error) or gives the parsed
  URL. A resolver query settles as rejected (\<open>Inl\<close> the message of the reason) or as
  fulfilled with a list of addresses, as \<^verbatim>\<open>Promise.allSettled\<close> reports it.
\<close>

type_synonym url_parser = "string \<Rightarrow> string + url"

type_synonym settled = "string + string list"

record resolver =
  resolve4 :: "string \<Rightarrow> settled"
  resolve6 :: "string \<Rightarrow> settled"

subsection \<open>The forbidden ranges and the address classifier\<close>

definition DISALLOWED_IP_RANGES :: "string list" where
  "DISALLOWED_IP_RANGES =
     [''unspecified'', ''broadcast'', ''multicast'', ''linkLocal'', ''loopback'',
      ''private'', ''reserved'', ''carrierGradeNat'',
      ''uniqueLocal'', ''6to4'', ''teredo'', ''benchmarking'', ''deprecated'',
      ''discard'']"

definition isAddressForbidden :: "'a ipaddr_js \<Rightarrow> string \<Rightarrow> bool" where
  "isAddressForbidden lib address =
     (if \<not> isValid lib address then True
      else
        let parsed = parse lib address in
        if kind lib parsed = ''ipv6'' \<and> isIPv4MappedAddress lib parsed then
          (let mapped = toIPv4Address lib parsed
           in rangeOf lib mapped \<in> set DISALLOWED_IP_RANGES)
        else rangeOf lib parsed \<in> set DISALLOWED_IP_RANGES)"

subsection \<open>Resolving a host name\<close>

text \<open>
  The loop of \<^verbatim>\<open>resolveHostAddresses\<close> over the two settled queries: a fulfilled one
  appends its addresses, a rejected one appends its message.
\<close>

fun collectResults :: "settled list \<Rightarrow> string list \<Rightarrow> string list \<Rightarrow> string list \<times> string list" where
  "collectResults [] addresses errors = (addresses, errors)"
| "collectResults (Inr v # results) addresses errors =
     collectResults results (addresses @ v) errors"
| "collectResults (Inl message # results) addresses errors =
     collectResults results addresses (errors @ [message])"

text \<open>\<^verbatim>\<open>Array.prototype.join\<close> on strings.\<close>

fun join :: "string \<Rightarrow> string list \<Rightarrow> string" where
  "join sep [] = ''''"
| "join sep [x] = x"
| "join sep (x # y # ys) = x @ sep @ join sep (y # ys)"

text \<open>The result is \<open>Inr\<close> the addresses, or \<open>Inl\<close> the message of the error thrown.\<close>

definition resolveHostAddresses :: "resolver \<Rightarrow> string \<Rightarrow> string + string list" where
  "resolveHostAddresses dns host =
     (let results = [resolve4 dns host, resolve6 dns host];
          (addresses, errors) = collectResults results [] []
      in if length addresses > 0 then Inr addresses
         else Inl (if length errors > 0 then join ''; '' errors
                   else ''DNS lookup did not return any A or AAAA records''))"

subsection \<open>The state of the module\<close>

text \<open>
  The module owns one piece of state, the cache \<^verbatim>\<open>dnsCache\<close> from host names to address
  lists. The model keeps beside it the sequence of cache and resolver calls made so far
  (a resolution with what \<^verbatim>\<open>resolveHostAddresses\<close> gave), so that "no resolution
  happened" can be said of a call.
\<close>

datatype io_event =
    CacheGet string
  | DnsResolve string "string + string list"
  | CacheSet string "string list"

record guard_state =
  dnsCache :: "string \<rightharpoonup> string list"
  io :: "io_event list"

datatype UrlValidationResult = Ok url | Denied string

text \<open>
  Lines 155 to 171 of \<^verbatim>\<open>validateUrl\<close>: the cache is asked first; on a miss the host
  is resolved and the answer stored; a resolution that throws ends the call with a denial
  and stores nothing. A cached array is truthy in JavaScript even when it is empty, so any
  hit skips the resolution.
\<close>

definition lookupRecords :: "resolver \<Rightarrow> guard_state \<Rightarrow> string \<Rightarrow> (string + string list) \<times> guard_state" where
  "lookupRecords dns st host =
     (case dnsCache st host of
        Some records \<Rightarrow> (Inr records, st\<lparr>io := io st @ [CacheGet host]\<rparr>)
      | None \<Rightarrow>
          (case resolveHostAddresses dns host of
             Inr records \<Rightarrow>
               (Inr records,
                st\<lparr>dnsCache := (dnsCache st)(host \<mapsto> records),
                   io := io st @ [CacheGet host, DnsResolve host (Inr records),
                                   CacheSet host records]\<rparr>)
           | Inl message \<Rightarrow>
               (Inl (''Failed to resolve hostname '' @ host @ '': '' @ message),
                st\<lparr>io := io st @ [CacheGet host, DnsResolve host (Inl message)]\<rparr>)))"

text \<open>The loop of lines 181 to 188 over the records, and the final allow.\<close>

fun checkRecords :: "'a ipaddr_js \<Rightarrow> string \<Rightarrow> url \<Rightarrow> string list \<Rightarrow> UrlValidationResult" where
  "checkRecords lib host parsedUrl [] = Ok parsedUrl"
| "checkRecords lib host parsedUrl (record # records) =
     (if isAddressForbidden lib record then
        Denied (''Refusing to access forbidden resolved address '' @ record
                @ '' for host '' @ host)
      else checkRecords lib host parsedUrl records)"

definition validateUrl ::
  "'a ipaddr_js \<Rightarrow> url_parser \<Rightarrow> resolver \<Rightarrow> guard_state \<Rightarrow> string
     \<Rightarrow> UrlValidationResult \<times> guard_state" where
  "validateUrl lib newURL dns st urlCandidate =
     (case newURL urlCandidate of
        Inl message \<Rightarrow>
          (Denied (''Invalid URL '' @ [CHR 0x22] @ urlCandidate @ [CHR 0x22] @ '': ''
                   @ message), st)
      | Inr parsedUrl \<Rightarrow>
          if protocol parsedUrl \<noteq> ''http:'' \<and> protocol parsedUrl \<noteq> ''https:'' then
            (Denied (''Unsupported protocol for URL: '' @ toString parsedUrl), st)
          else
            let host = hostname parsedUrl in
            if host = '''' then
              (Denied (''URL '' @ toString parsedUrl @ '' must include a hostname''), st)
            else if isValid lib host then
              (if isAddressForbidden lib host then
                 (Denied (''Refusing to access forbidden IP address '' @ host), st)
               else (Ok parsedUrl, st))
            else
              (case lookupRecords dns st host of
                 (Inl reason, st') \<Rightarrow> (Denied reason, st')
               | (Inr records, st') \<Rightarrow>
                   if records = [] then
                     (Denied (''DNS lookup for '' @ host
                              @ '' did not return any addresses''), st')
                   else (checkRecords lib host parsedUrl records, st')))"

definition clearDnsCache :: "guard_state \<Rightarrow> guard_state" where
  "clearDnsCache st = st\<lparr>dnsCache := Map.empty\<rparr>"

text \<open>
  The cache library drops an entry when its time to live has passed or when the cache is
  over capacity. Seen from the module, a key is gone.
\<close>

definition evictDnsEntry :: "string \<Rightarrow> guard_state \<Rightarrow> guard_state" where
  "evictDnsEntry host st = st\<lparr>dnsCache := (dnsCache st)(host := None)\<rparr>"

text \<open>
  The states the module can be in: it starts with an empty cache, and the cache is private
  to the module, so only \<^verbatim>\<open>validateUrl\<close>, \<^verbatim>\<open>clearDnsCache\<close> and the cache library's own
  evictions change it. Each call of \<^verbatim>\<open>validateUrl\<close> meets whatever answers the resolver
  gives at that moment.
\<close>

inductive reachable :: "'a ipaddr_js \<Rightarrow> url_parser \<Rightarrow> guard_state \<Rightarrow> bool"
  for lib :: "'a ipaddr_js" and newURL :: url_parser where
  start: "reachable lib newURL \<lparr>dnsCache = Map.empty, io = []\<rparr>"
| validated: "reachable lib newURL st \<Longrightarrow> validateUrl lib newURL dns st urlCandidate = (res, st')
     \<Longrightarrow> reachable lib newURL st'"
| cleared: "reachable lib newURL st \<Longrightarrow> reachable lib newURL (clearDnsCache st)"
| evicted: "reachable lib newURL st \<Longrightarrow> reachable lib newURL (evictDnsEntry host st)"

section \<open>The admission limiter (\<^verbatim>\<open>rateLimit.ts\<close>)\<close>

text \<open>
  The two limits are read from the environment once, with these defaults; the functions
  below take them as arguments.
\<close>

definition RATE_LIMIT_REQUESTS :: int where
  "RATE_LIMIT_REQUESTS = 5"

definition RATE_LIMIT_WINDOW_MS :: int where
  "RATE_LIMIT_WINDOW_MS = 60000"

text \<open>
  Time stamps are the integers of \<^verbatim>\<open>Date.now()\<close>. \<^verbatim>\<open>Math.min\<close> of no arguments is
  \<^verbatim>\<open>Infinity\<close>, and \<^verbatim>\<open>Infinity\<close> stays \<^verbatim>\<open>Infinity\<close> through the sum, the division and
  \<^verbatim>\<open>Math.ceil\<close>.
\<close>

datatype jsnumber = Num int | Infinity

fun Math_min :: "int list \<Rightarrow> jsnumber" where
  "Math_min [] = Infinity"
| "Math_min (t # ts) = (case Math_min ts of Infinity \<Rightarrow> Num t | Num m \<Rightarrow> Num (min t m))"

text \<open>
  The store \<^verbatim>\<open>rateLimitStore\<close> from caller address to time stamps, and beside it the calls
  of \<^verbatim>\<open>rateLimitStore.set\<close> made so far, in order.
\<close>

record limiter_state =
  rateLimitStore :: "string \<rightharpoonup> int list"
  setCalls :: "(string \<times> int list) list"

text \<open>
  The handler either passes the request on (\<^verbatim>\<open>await next()\<close>) or answers 429 with
  \<^verbatim>\<open>{ error: "Rate limit exceeded", retryAfter }\<close>.
\<close>

datatype response = Next | TooManyRequests jsnumber

text \<open>\<^verbatim>\<open>connInfo?.remote?.address || "unknown"\<close>: an absent or empty address is unknown.\<close>

definition getClientIp :: "string option \<Rightarrow> string" where
  "getClientIp address =
     (case address of None \<Rightarrow> ''unknown''
      | Some a \<Rightarrow> if a = '''' then ''unknown'' else a)"

definition rateLimiter ::
  "int \<Rightarrow> int \<Rightarrow> limiter_state \<Rightarrow> string option \<Rightarrow> int \<Rightarrow> response \<times> limiter_state" where
  "rateLimiter maxRequests windowMs st address now =
     (let ip = getClientIp address;
          windowStart = now - windowMs;
          timestamps =
            filter (\<lambda>t. t > windowStart)
              (case rateLimitStore st ip of None \<Rightarrow> [] | Some ts \<Rightarrow> ts)
      in if int (length timestamps) \<ge> maxRequests then
           (let retryAfter =
                  (case Math_min timestamps of
                     Infinity \<Rightarrow> Infinity
                   | Num oldestInWindow \<Rightarrow>
                       Num \<lceil>real_of_int (oldestInWindow + windowMs - now) / 1000\<rceil>)
            in (TooManyRequests retryAfter, st))
         else
           (let timestamps' = timestamps @ [now]
            in (Next,
                st\<lparr>rateLimitStore := (rateLimitStore st)(ip \<mapsto> timestamps'),
                   setCalls := setCalls st @ [(ip, timestamps')]\<rparr>)))"

definition clearRateLimitStore :: "limiter_state \<Rightarrow> limiter_state" where
  "clearRateLimitStore st = st\<lparr>rateLimitStore := Map.empty\<rparr>"

text \<open>Several calls in a row from one caller, at the given times.\<close>

fun rateLimiterCalls ::
  "int \<Rightarrow> int \<Rightarrow> limiter_state \<Rightarrow> string option \<Rightarrow> int list \<Rightarrow> response list \<times> limiter_state" where
  "rateLimiterCalls maxRequests windowMs st address [] = ([], st)"
| "rateLimiterCalls maxRequests windowMs st address (now # later) =
     (let (r, st') = rateLimiter maxRequests windowMs st address now;
          (rs, st'') = rateLimiterCalls maxRequests windowMs st' address later
      in (r # rs, st''))"

section \<open>Stand-ins for the imported parts\<close>

text \<open>
  To run the definitions on concrete inputs the parameters need values. These are small
  stand-ins that know a handful of inputs; no general statement below depends on them.
  An address is its list of octets (four) or of 16-bit parts (eight).
\<close>

definition stub_addresses :: "(string \<times> nat list) list" where
  "stub_addresses =
     [(''127.0.0.1'', [127, 0, 0, 1]),
      (''::ffff:127.0.0.1'', [0, 0, 0, 0, 0, 65535, 32512, 1]),
      (''93.184.216.34'', [93, 184, 216, 34]),
      (''10.0.0.1'', [10, 0, 0, 1]),
      (''2606:4700:4700::1111'', [9734, 18176, 18176, 0, 0, 0, 0, 4369])]"

definition stub_range :: "nat list \<Rightarrow> string" where
  "stub_range a =
     (if length a = 4 then
        (if hd a = 127 then ''loopback'' else if hd a = 10 then ''private'' else ''unicast'')
      else if take 6 a = [0, 0, 0, 0, 0, 65535] then ''ipv4Mapped''
      else ''unicast'')"

text \<open>
  As \<^verbatim>\<open>ipaddr.js\<close> does, the stand-in accepts an address only as the bare literal: the
  text \<^verbatim>\<open>[2606:4700:4700::1111]\<close>, with brackets, is not valid.
\<close>

definition stub_ipaddr :: "nat list ipaddr_js" where
  "stub_ipaddr =
     \<lparr>isValid = (\<lambda>s. map_of stub_addresses s \<noteq> None),
      parse = (\<lambda>s. case map_of stub_addresses s of None \<Rightarrow> [] | Some a \<Rightarrow> a),
      kind = (\<lambda>a. if length a = 4 then ''ipv4'' else ''ipv6''),
      isIPv4MappedAddress = (\<lambda>a. stub_range a = ''ipv4Mapped''),
      toIPv4Address = (\<lambda>a. [a ! 6 div 256, a ! 6 mod 256, a ! 7 div 256, a ! 7 mod 256]),
      rangeOf = stub_range\<rparr>"

text \<open>
  A parser that knows seven URLs and rejects every other string. On them it answers as the
  platform's \<^verbatim>\<open>URL\<close> does: the host name of an IPv6 literal keeps its brackets; an http
  URL never has an empty host name, \<^verbatim>\<open>http:///path\<close> is read as the host \<^verbatim>\<open>path\<close>; a
  \<^verbatim>\<open>file:\<close> URL may have an empty host name.
\<close>

definition stub_URL :: url_parser where
  "stub_URL s =
     (if s = ''http://example.com/a'' then
        Inr \<lparr>protocol = ''http:'', hostname = ''example.com'', toString = ''http://example.com/a''\<rparr>
      else if s = ''http://127.0.0.1/'' then
        Inr \<lparr>protocol = ''http:'', hostname = ''127.0.0.1'', toString = ''http://127.0.0.1/''\<rparr>
      else if s = ''http://93.184.216.34/'' then
        Inr \<lparr>protocol = ''http:'', hostname = ''93.184.216.34'', toString = ''http://93.184.216.34/''\<rparr>
      else if s = ''http://[2606:4700:4700::1111]/'' then
        Inr \<lparr>protocol = ''http:'', hostname = ''[2606:4700:4700::1111]'',
             toString = ''http://[2606:4700:4700::1111]/''\<rparr>
      else if s = ''ftp://host/x'' then
        Inr \<lparr>protocol = ''ftp:'', hostname = ''host'', toString = ''ftp://host/x''\<rparr>
      else if s = ''file:///etc/passwd'' then
        Inr \<lparr>protocol = ''file:'', hostname = '''', toString = ''file:///etc/passwd''\<rparr>
      else if s = ''http:///path'' then
        Inr \<lparr>protocol = ''http:'', hostname = ''path'', toString = ''http://path/''\<rparr>
      else Inl ''Invalid URL'')"

text \<open>A resolver that gives every host the same two answers.\<close>

definition stub_dns :: "settled \<Rightarrow> settled \<Rightarrow> resolver" where
  "stub_dns a4 a6 = \<lparr>resolve4 = (\<lambda>h. a4), resolve6 = (\<lambda>h. a6)\<rparr>"

definition guard_start :: guard_state where
  "guard_start = \<lparr>dnsCache = Map.empty, io = []\<rparr>"

definition limiter_start :: limiter_state where
  "limiter_start = \<lparr>rateLimitStore = Map.empty, setCalls = []\<rparr>"

text \<open>The URL \<^verbatim>\<open>http://example.com/a\<close> as the stand-in parser gives it.\<close>

definition example_url :: url where
  "example_url =
     \<lparr>protocol = ''http:'', hostname = ''example.com'', toString = ''http://example.com/a''\<rparr>"

text \<open>A resolver with one public A record and no AAAA record for every host.\<close>

definition public_dns :: resolver where
  "public_dns = stub_dns (Inr [''93.184.216.34'']) (Inl ''queryAaaa ENODATA example.com'')"

text \<open>The state of the guard after \<^verbatim>\<open>http://example.com/a\<close> was validated against it.\<close>

definition guard_after_example :: guard_state where
  "guard_after_example =
     \<lparr>dnsCache = [''example.com'' \<mapsto> [''93.184.216.34'']],
      io = [CacheGet ''example.com'', DnsResolve ''example.com'' (Inr [''93.184.216.34'']),
            CacheSet ''example.com'' [''93.184.216.34'']]\<rparr>"


text \<open>The URL \<^verbatim>\<open>http://[2606:4700:4700::1111]/\<close> as the stand-in parser gives it.\<close>

definition ipv6_literal_url :: url where
  "ipv6_literal_url =
     \<lparr>protocol = ''http:'', hostname = ''[2606:4700:4700::1111]'',
      toString = ''http://[2606:4700:4700::1111]/''\<rparr>"

text \<open>A resolver that finds no host.\<close>

definition notfound_dns :: resolver where
  "notfound_dns = stub_dns (Inl ''queryA ENOTFOUND'') (Inl ''queryAaaa ENOTFOUND'')"

text \<open>The state of the limiter after one caller was admitted five times, a second apart.\<close>

definition limiter_full :: limiter_state where
  "limiter_full =
     \<lparr>rateLimitStore = [''203.0.113.7'' \<mapsto> [1000, 2000, 3000, 4000, 5000]],
      setCalls =
        [(''203.0.113.7'', [1000]),
         (''203.0.113.7'', [1000, 2000]),
         (''203.0.113.7'', [1000, 2000, 3000]),
         (''203.0.113.7'', [1000, 2000, 3000, 4000]),
         (''203.0.113.7'', [1000, 2000, 3000, 4000, 5000])]\<rparr>"

section \<open>The invariant of the resolution cache\<close>

text \<open>
  Every cached list is non-empty and is what a resolution of that host gave, and the
  same holds of every list ever handed to \<^verbatim>\<open>dnsCache.set\<close>.
\<close>

definition cache_ok :: "guard_state \<Rightarrow> bool" where
  "cache_ok st \<longleftrightarrow>
     (\<forall>h rs. dnsCache st h = Some rs \<longrightarrow> rs \<noteq> [] \<and> DnsResolve h (Inr rs) \<in> set (io st)) \<and>
     (\<forall>h rs. CacheSet h rs \<in> set (io st) \<longrightarrow> rs \<noteq> [] \<and> DnsResolve h (Inr rs) \<in> set (io st))"

section \<open>Running the stand-ins\<close>

lemmas stub_defs =
  stub_ipaddr_def stub_addresses_def stub_range_def stub_URL_def stub_dns_def
  guard_start_def limiter_start_def

lemmas limiter_defs =
  rateLimiter_def getClientIp_def RATE_LIMIT_REQUESTS_def RATE_LIMIT_WINDOW_MS_def Let_def

lemma stub_URL_example: "stub_URL ''http://example.com/a'' = Inr example_url"
  by (simp add: stub_URL_def example_url_def)

lemma example_url_fields:
  "protocol example_url = ''http:''" "hostname example_url = ''example.com''"
  "toString example_url = ''http://example.com/a''"
  by (simp_all add: example_url_def)

lemma stub_not_literal: "\<not> isValid stub_ipaddr ''example.com''"
  by (simp add: stub_defs)

lemma stub_verdicts:
  "\<not> isAddressForbidden stub_ipaddr ''93.184.216.34''"
  "isAddressForbidden stub_ipaddr ''10.0.0.1''"
  by (simp_all add: stub_defs isAddressForbidden_def DISALLOWED_IP_RANGES_def)

lemma validate_example:
  "validateUrl stub_ipaddr stub_URL public_dns guard_start ''http://example.com/a''
     = (Ok example_url, guard_after_example)"
proof -
  have "resolveHostAddresses public_dns ''example.com'' = Inr [''93.184.216.34'']"
    by (simp add: resolveHostAddresses_def public_dns_def stub_dns_def)
  then have "lookupRecords public_dns guard_start ''example.com''
               = (Inr [''93.184.216.34''], guard_after_example)"
    by (simp add: lookupRecords_def guard_start_def guard_after_example_def)
  then show ?thesis
    by (simp add: validateUrl_def stub_URL_example example_url_fields stub_not_literal
        stub_verdicts Let_def)
qed

lemma reachable_start: "reachable stub_ipaddr stub_URL guard_start"
  unfolding guard_start_def by (rule reachable.start)

lemma reachable_after_example: "reachable stub_ipaddr stub_URL guard_after_example"
  using reachable_start validate_example by (rule reachable.validated)

lemma five_calls_fill:
  "rateLimiterCalls RATE_LIMIT_REQUESTS RATE_LIMIT_WINDOW_MS limiter_start
       (Some ''203.0.113.7'') [1000, 2000, 3000, 4000, 5000]
     = ([Next, Next, Next, Next, Next], limiter_full)"
  by (simp add: limiter_defs limiter_start_def limiter_full_def)

lemma sixth_call_denied:
  "rateLimiter RATE_LIMIT_REQUESTS RATE_LIMIT_WINDOW_MS limiter_full (Some ''203.0.113.7'') 6000
     = (TooManyRequests (Num 55), limiter_full)"
  by (simp add: limiter_defs limiter_full_def)

section \<open>Properties of the address classifier\<close>

text \<open>
  Claim C3. \<^verbatim>\<open>isAddressForbidden\<close> fails closed: a string that is not a valid IPv4 or
  IPv6 literal is forbidden. A valid address is forbidden exactly when its range, taken
  after an IPv4-mapped IPv6 address has been unwrapped to the IPv4 address it carries, is
  one of the fourteen documented categories (unspecified, broadcast, multicast,
  link-local, loopback, private, reserved, carrier-grade NAT, unique-local, 6to4, Teredo,
  benchmarking, deprecated, discard), and is allowed in every other case.
\<close>

theorem classifier_verdict:
  "(\<not> isValid lib s \<longrightarrow> isAddressForbidden lib s) \<and>
   (isValid lib s \<longrightarrow>
      isAddressForbidden lib s =
        ((if kind lib (parse lib s) = ''ipv6'' \<and> isIPv4MappedAddress lib (parse lib s)
          then rangeOf lib (toIPv4Address lib (parse lib s))
          else rangeOf lib (parse lib s))
         \<in> {''unspecified'', ''broadcast'', ''multicast'', ''linkLocal'', ''loopback'',
             ''private'', ''reserved'', ''carrierGradeNat'', ''uniqueLocal'', ''6to4'',
             ''teredo'', ''benchmarking'', ''deprecated'', ''discard''}))"
  by (simp add: isAddressForbidden_def DISALLOWED_IP_RANGES_def Let_def)

theorem classifier_verdict_witness:
  "\<not> isValid stub_ipaddr ''localhost'' \<and> isAddressForbidden stub_ipaddr ''localhost'' \<and>
   isValid stub_ipaddr ''10.0.0.1'' \<and> isAddressForbidden stub_ipaddr ''10.0.0.1'' \<and>
   isValid stub_ipaddr ''93.184.216.34'' \<and> \<not> isAddressForbidden stub_ipaddr ''93.184.216.34''"
  using classifier_verdict [of stub_ipaddr "''localhost''"]
    classifier_verdict [of stub_ipaddr "''10.0.0.1''"]
    classifier_verdict [of stub_ipaddr "''93.184.216.34''"]
  by (simp add: stub_defs)

text \<open>
  Claim C2. Let \<open>s4\<close> be the text of an IPv4 address and \<open>s6\<close> the text of the IPv4-mapped
  IPv6 address that carries it: \<open>s6\<close> parses to an IPv6 address that the library
  recognises as IPv4-mapped and converts to the address \<open>s4\<close> parses to. Then both texts
  get the same verdict from \<^verbatim>\<open>isAddressForbidden\<close>.
\<close>

theorem mapped_same_verdict:
  assumes "isValid lib s4" and "kind lib (parse lib s4) = ''ipv4''"
    and "isValid lib s6" and "kind lib (parse lib s6) = ''ipv6''"
    and "isIPv4MappedAddress lib (parse lib s6)"
    and "toIPv4Address lib (parse lib s6) = parse lib s4"
  shows "isAddressForbidden lib s6 = isAddressForbidden lib s4"
  using assms by (simp add: isAddressForbidden_def Let_def)

theorem mapped_same_verdict_witness:
  "isValid stub_ipaddr ''127.0.0.1'' \<and>
   kind stub_ipaddr (parse stub_ipaddr ''127.0.0.1'') = ''ipv4'' \<and>
   isValid stub_ipaddr ''::ffff:127.0.0.1'' \<and>
   kind stub_ipaddr (parse stub_ipaddr ''::ffff:127.0.0.1'') = ''ipv6'' \<and>
   isIPv4MappedAddress stub_ipaddr (parse stub_ipaddr ''::ffff:127.0.0.1'') \<and>
   toIPv4Address stub_ipaddr (parse stub_ipaddr ''::ffff:127.0.0.1'')
     = parse stub_ipaddr ''127.0.0.1'' \<and>
   isAddressForbidden stub_ipaddr ''::ffff:127.0.0.1''
     = isAddressForbidden stub_ipaddr ''127.0.0.1'' \<and>
   isAddressForbidden stub_ipaddr ''127.0.0.1''"
proof -
  have h1: "isValid stub_ipaddr ''127.0.0.1''"
    by (simp add: stub_defs)
  have h2: "kind stub_ipaddr (parse stub_ipaddr ''127.0.0.1'') = ''ipv4''"
    by (simp add: stub_defs)
  have h3: "isValid stub_ipaddr ''::ffff:127.0.0.1''"
    by (simp add: stub_defs)
  have h4: "kind stub_ipaddr (parse stub_ipaddr ''::ffff:127.0.0.1'') = ''ipv6''"
    by (simp add: stub_defs)
  have h5: "isIPv4MappedAddress stub_ipaddr (parse stub_ipaddr ''::ffff:127.0.0.1'')"
    by (simp add: stub_defs)
  have h6: "toIPv4Address stub_ipaddr (parse stub_ipaddr ''::ffff:127.0.0.1'')
              = parse stub_ipaddr ''127.0.0.1''"
    by (simp add: stub_defs)
  have h7: "isAddressForbidden stub_ipaddr ''127.0.0.1''"
    by (simp add: stub_defs isAddressForbidden_def DISALLOWED_IP_RANGES_def)
  from mapped_same_verdict [OF h1 h2 h3 h4 h5 h6] h1 h2 h3 h4 h5 h6 h7
  show ?thesis by blast
qed

section \<open>Properties of the egress guard\<close>

subsection \<open>The path through the cache and the resolver\<close>

lemma resolveHostAddresses_cases:
  "resolveHostAddresses dns host =
     (case (resolve4 dns host, resolve6 dns host) of
        (Inr a, Inr b) \<Rightarrow>
          if a @ b \<noteq> [] then Inr (a @ b)
          else Inl ''DNS lookup did not return any A or AAAA records''
      | (Inr a, Inl e6) \<Rightarrow> if a \<noteq> [] then Inr a else Inl e6
      | (Inl e4, Inr b) \<Rightarrow> if b \<noteq> [] then Inr b else Inl e4
      | (Inl e4, Inl e6) \<Rightarrow> Inl (e4 @ ''; '' @ e6))"
  by (simp add: resolveHostAddresses_def split: sum.splits)

lemma resolveHostAddresses_nonempty:
  "resolveHostAddresses dns host = Inr rs \<Longrightarrow> rs \<noteq> []"
  by (auto simp: resolveHostAddresses_cases split: sum.splits if_splits)

lemma lookupRecords_steps:
  assumes "lookupRecords dns st host = (x, st')"
  shows "(\<exists>rs. dnsCache st host = Some rs \<and> x = Inr rs \<and> st' = st\<lparr>io := io st @ [CacheGet host]\<rparr>) \<or>
         (\<exists>rs. dnsCache st host = None \<and> resolveHostAddresses dns host = Inr rs \<and> rs \<noteq> [] \<and>
               x = Inr rs \<and>
               st' = st\<lparr>dnsCache := (dnsCache st)(host \<mapsto> rs),
                        io := io st @ [CacheGet host, DnsResolve host (Inr rs), CacheSet host rs]\<rparr>) \<or>
         (\<exists>e. dnsCache st host = None \<and> resolveHostAddresses dns host = Inl e \<and>
               x = Inl (''Failed to resolve hostname '' @ host @ '': '' @ e) \<and>
               st' = st\<lparr>io := io st @ [CacheGet host, DnsResolve host (Inl e)]\<rparr>)"
proof (cases "dnsCache st host")
  case (Some rs)
  with assms show ?thesis by (auto simp: lookupRecords_def)
next
  case None
  show ?thesis
  proof (cases "resolveHostAddresses dns host")
    case (Inl e)
    with None assms show ?thesis by (auto simp: lookupRecords_def)
  next
    case (Inr rs)
    then have ne: "rs \<noteq> []" by (rule resolveHostAddresses_nonempty)
    have "lookupRecords dns st host =
            (Inr rs, st\<lparr>dnsCache := (dnsCache st)(host \<mapsto> rs),
                         io := io st @ [CacheGet host, DnsResolve host (Inr rs),
                                         CacheSet host rs]\<rparr>)"
      by (simp add: lookupRecords_def None Inr)
    with assms have "x = Inr rs"
      and "st' = st\<lparr>dnsCache := (dnsCache st)(host \<mapsto> rs),
                       io := io st @ [CacheGet host, DnsResolve host (Inr rs),
                                       CacheSet host rs]\<rparr>"
      by (metis prod.inject)+
    with None Inr ne show ?thesis by blast
  qed
qed

lemma lookupRecords_cache_ok:
  assumes "cache_ok st" and "lookupRecords dns st host = (x, st')"
  shows "cache_ok st'"
proof -
  from lookupRecords_steps [OF assms(2)]
  consider (hit) "st' = st\<lparr>io := io st @ [CacheGet host]\<rparr>"
    | (stored) rs where "rs \<noteq> []"
        "st' = st\<lparr>dnsCache := (dnsCache st)(host \<mapsto> rs),
                 io := io st @ [CacheGet host, DnsResolve host (Inr rs), CacheSet host rs]\<rparr>"
    | (failed) e where "st' = st\<lparr>io := io st @ [CacheGet host, DnsResolve host (Inl e)]\<rparr>"
    by blast
  then show ?thesis
  proof cases
    case hit
    with assms(1) show ?thesis by (simp add: cache_ok_def)
  next
    case stored
    with assms(1) show ?thesis by (simp add: cache_ok_def)
  next
    case failed
    with assms(1) show ?thesis by (simp add: cache_ok_def)
  qed
qed

lemma validateUrl_state:
  assumes "validateUrl lib newURL dns st u = (res, st')"
  shows "st' = st \<or> (\<exists>p x. newURL u = Inr p \<and> lookupRecords dns st (hostname p) = (x, st'))"
  using assms
  by (auto simp: validateUrl_def Let_def split: sum.splits if_splits prod.splits)

lemma validateUrl_cache_ok:
  assumes "cache_ok st" and "validateUrl lib newURL dns st u = (res, st')"
  shows "cache_ok st'"
  using validateUrl_state [OF assms(2)] assms(1) lookupRecords_cache_ok by blast

lemma reachable_cache_ok: "reachable lib newURL st \<Longrightarrow> cache_ok st"
proof (induction rule: reachable.induct)
  case start
  show ?case by (simp add: cache_ok_def)
next
  case (validated st dns urlCandidate res st')
  then show ?case using validateUrl_cache_ok by blast
next
  case (cleared st)
  then show ?case by (simp add: cache_ok_def clearDnsCache_def)
next
  case (evicted st host)
  then show ?case by (simp add: cache_ok_def evictDnsEntry_def)
qed

lemma checkRecords_find:
  "checkRecords lib host p rs =
     (case find (isAddressForbidden lib) rs of
        Some r \<Rightarrow> Denied (''Refusing to access forbidden resolved address '' @ r
                          @ '' for host '' @ host)
      | None \<Rightarrow> Ok p)"
  by (induction rs) auto

lemma validateUrl_resolved:
  assumes "newURL u = Inr p"
    and "protocol p = ''http:'' \<or> protocol p = ''https:''"
    and "hostname p \<noteq> ''''"
    and "\<not> isValid lib (hostname p)"
  shows "validateUrl lib newURL dns st u =
           (case lookupRecords dns st (hostname p) of
              (Inl reason, st') \<Rightarrow> (Denied reason, st')
            | (Inr records, st') \<Rightarrow>
                if records = [] then
                  (Denied (''DNS lookup for '' @ hostname p
                           @ '' did not return any addresses''), st')
                else (checkRecords lib (hostname p) p records, st'))"
  using assms by (auto simp: validateUrl_def Let_def)

lemma lookupRecords_yields:
  assumes "dnsCache st host = Some rs \<or>
           (dnsCache st host = None \<and> resolveHostAddresses dns host = Inr rs)"
  shows "fst (lookupRecords dns st host) = Inr rs"
  using assms by (auto simp: lookupRecords_def)





text \<open>
  Where the host name of the URL is a text that \<^verbatim>\<open>ipaddr.isValid\<close> accepts, as it is for
  an IPv4 literal, \<^verbatim>\<open>validateUrl\<close> decides by classifying the literal alone and hands the
  state back unchanged: neither the cache nor the resolver was called.
\<close>

lemma valid_host_fast_path:
  assumes "newURL u = Inr p"
    and "protocol p = ''http:'' \<or> protocol p = ''https:''"
    and "hostname p \<noteq> ''''"
    and "isValid lib (hostname p)"
  shows "validateUrl lib newURL dns st u =
           (if isAddressForbidden lib (hostname p)
            then Denied (''Refusing to access forbidden IP address '' @ hostname p)
            else Ok p, st)"
  using assms by (auto simp: validateUrl_def)

lemma ipv4_literal_fast_path:
  "validateUrl stub_ipaddr stub_URL notfound_dns guard_start ''http://127.0.0.1/''
     = (Denied ''Refusing to access forbidden IP address 127.0.0.1'', guard_start) \<and>
   validateUrl stub_ipaddr stub_URL notfound_dns guard_start ''http://93.184.216.34/''
     = (Ok \<lparr>protocol = ''http:'', hostname = ''93.184.216.34'',
             toString = ''http://93.184.216.34/''\<rparr>, guard_start)"
proof -
  let ?p = "\<lparr>protocol = ''http:'', hostname = ''127.0.0.1'', toString = ''http://127.0.0.1/''\<rparr>"
  let ?q = "\<lparr>protocol = ''http:'', hostname = ''93.184.216.34'',
             toString = ''http://93.184.216.34/''\<rparr>"
  have p: "stub_URL ''http://127.0.0.1/'' = Inr ?p"
    by (simp add: stub_URL_def)
  have q: "stub_URL ''http://93.184.216.34/'' = Inr ?q"
    by (simp add: stub_URL_def)
  have vp: "isValid stub_ipaddr (hostname ?p)"
    by (simp add: stub_defs)
  have vq: "isValid stub_ipaddr (hostname ?q)"
    by (simp add: stub_defs)
  have fp: "isAddressForbidden stub_ipaddr ''127.0.0.1''"
    by (simp add: stub_defs isAddressForbidden_def DISALLOWED_IP_RANGES_def)
  have "validateUrl stub_ipaddr stub_URL notfound_dns guard_start ''http://127.0.0.1/''
          = (Denied ''Refusing to access forbidden IP address 127.0.0.1'', guard_start)"
    using valid_host_fast_path [where newURL = stub_URL and p = ?p and lib = stub_ipaddr
        and dns = notfound_dns and st = guard_start, OF p] vp fp by simp
  moreover have "validateUrl stub_ipaddr stub_URL notfound_dns guard_start
                   ''http://93.184.216.34/''
          = (Ok ?q, guard_start)"
    using valid_host_fast_path [where newURL = stub_URL and p = ?q and lib = stub_ipaddr
        and dns = notfound_dns and st = guard_start, OF q] vq stub_verdicts(1) by simp
  ultimately show ?thesis by simp
qed

text \<open>
  Claim C4. For a URL whose host is an IP literal, \<^verbatim>\<open>validateUrl\<close> is to classify the
  literal directly, without a cache access or a resolution, and to allow it when it is not
  forbidden. The code does not do so for an IPv6 literal. \<^verbatim>\<open>new URL\<close> gives the host name
  of \<^verbatim>\<open>http://[2606:4700:4700::1111]/\<close> with its brackets, and \<^verbatim>\<open>ipaddr.isValid\<close> rejects
  the bracketed text, although the bare literal is valid and in no forbidden range. So
  the call asks the cache, resolves the bracketed text as if it were a name, and denies
  the URL for the failed resolution.
\<close>

theorem ipv6_literal_url_not_classified:
  "stub_URL ''http://[2606:4700:4700::1111]/'' = Inr ipv6_literal_url \<and>
   hostname ipv6_literal_url = ''[2606:4700:4700::1111]'' \<and>
   isValid stub_ipaddr ''2606:4700:4700::1111'' \<and>
   kind stub_ipaddr (parse stub_ipaddr ''2606:4700:4700::1111'') = ''ipv6'' \<and>
   \<not> isAddressForbidden stub_ipaddr ''2606:4700:4700::1111'' \<and>
   \<not> isValid stub_ipaddr ''[2606:4700:4700::1111]'' \<and>
   validateUrl stub_ipaddr stub_URL notfound_dns guard_start ''http://[2606:4700:4700::1111]/''
     = (Denied ''Failed to resolve hostname [2606:4700:4700::1111]: queryA ENOTFOUND; queryAaaa ENOTFOUND'',
        guard_start\<lparr>io := [CacheGet ''[2606:4700:4700::1111]'',
                           DnsResolve ''[2606:4700:4700::1111]''
                             (Inl ''queryA ENOTFOUND; queryAaaa ENOTFOUND'')]\<rparr>)"
proof (intro conjI)
  show url: "stub_URL ''http://[2606:4700:4700::1111]/'' = Inr ipv6_literal_url"
    by (simp add: stub_URL_def ipv6_literal_url_def)
  show "hostname ipv6_literal_url = ''[2606:4700:4700::1111]''"
    by (simp add: ipv6_literal_url_def)
  show "isValid stub_ipaddr ''2606:4700:4700::1111''"
    by (simp add: stub_defs)
  show "kind stub_ipaddr (parse stub_ipaddr ''2606:4700:4700::1111'') = ''ipv6''"
    by (simp add: stub_defs)
  show "\<not> isAddressForbidden stub_ipaddr ''2606:4700:4700::1111''"
    by (simp add: stub_defs isAddressForbidden_def DISALLOWED_IP_RANGES_def)
  show bracketed: "\<not> isValid stub_ipaddr ''[2606:4700:4700::1111]''"
    by (simp add: stub_defs)
  have fields: "protocol ipv6_literal_url = ''http:''"
    "hostname ipv6_literal_url = ''[2606:4700:4700::1111]''"
    by (simp_all add: ipv6_literal_url_def)
  show "validateUrl stub_ipaddr stub_URL notfound_dns guard_start
          ''http://[2606:4700:4700::1111]/''
     = (Denied ''Failed to resolve hostname [2606:4700:4700::1111]: queryA ENOTFOUND; queryAaaa ENOTFOUND'',
        guard_start\<lparr>io := [CacheGet ''[2606:4700:4700::1111]'',
                           DnsResolve ''[2606:4700:4700::1111]''
                             (Inl ''queryA ENOTFOUND; queryAaaa ENOTFOUND'')]\<rparr>)"
    by (simp add: validateUrl_def url fields bracketed lookupRecords_def
        resolveHostAddresses_def notfound_dns_def stub_dns_def guard_start_def Let_def)
qed

text \<open>
  Claim C1. Take a call of \<^verbatim>\<open>validateUrl\<close> on an http(s) URL whose host name is not an
  IP literal, and let \<open>rs\<close> be the non-empty list of addresses that the cache holds for
  the host, or, on a miss, that the resolution gives. The result is a denial naming the
  first forbidden address of \<open>rs\<close> when there is one, and otherwise the parsed URL. So one
  forbidden address among the records is enough to deny, with a reason that names a
  forbidden address of the list, and the URL is allowed if and only if every address of
  the list is allowed.
\<close>

theorem any_forbidden_address_denies:
  assumes "newURL u = Inr p"
    and "protocol p = ''http:'' \<or> protocol p = ''https:''"
    and "hostname p \<noteq> ''''"
    and "\<not> isValid lib (hostname p)"
    and "dnsCache st (hostname p) = Some rs \<or>
         (dnsCache st (hostname p) = None \<and> resolveHostAddresses dns (hostname p) = Inr rs)"
    and "rs \<noteq> []"
  shows "fst (validateUrl lib newURL dns st u) =
           (case find (isAddressForbidden lib) rs of
              Some r \<Rightarrow> Denied (''Refusing to access forbidden resolved address '' @ r
                                @ '' for host '' @ hostname p)
            | None \<Rightarrow> Ok p) \<and>
         ((\<exists>r \<in> set rs. isAddressForbidden lib r) \<longrightarrow>
            (\<exists>r \<in> set rs. isAddressForbidden lib r \<and>
               fst (validateUrl lib newURL dns st u) =
                 Denied (''Refusing to access forbidden resolved address '' @ r
                         @ '' for host '' @ hostname p))) \<and>
         (fst (validateUrl lib newURL dns st u) = Ok p
            \<longleftrightarrow> (\<forall>r \<in> set rs. \<not> isAddressForbidden lib r))"
proof -
  let ?res = "fst (validateUrl lib newURL dns st u)"
  let ?deny = "\<lambda>r. Denied (''Refusing to access forbidden resolved address '' @ r
                            @ '' for host '' @ hostname p)"
  from lookupRecords_yields [OF assms(5)]
  obtain st' where "lookupRecords dns st (hostname p) = (Inr rs, st')"
    by (cases "lookupRecords dns st (hostname p)") simp
  with validateUrl_resolved [where newURL = newURL and u = u and p = p and lib = lib
      and dns = dns and st = st, OF assms(1-4)] assms(6)
  have "?res = checkRecords lib (hostname p) p rs" by simp
  then have first: "?res = (case find (isAddressForbidden lib) rs of
                              Some r \<Rightarrow> ?deny r | None \<Rightarrow> Ok p)"
    by (simp add: checkRecords_find)
  have second: "(\<exists>r \<in> set rs. isAddressForbidden lib r) \<longrightarrow>
                  (\<exists>r \<in> set rs. isAddressForbidden lib r \<and> ?res = ?deny r)"
  proof
    assume "\<exists>r \<in> set rs. isAddressForbidden lib r"
    then have "find (isAddressForbidden lib) rs \<noteq> None"
      by (auto simp: find_None_iff)
    then obtain r where r: "find (isAddressForbidden lib) rs = Some r"
      by blast
    then have "r \<in> set rs" and "isAddressForbidden lib r"
      by (auto simp: find_Some_iff)
    with first r show "\<exists>r \<in> set rs. isAddressForbidden lib r \<and> ?res = ?deny r"
      by auto
  qed
  have third: "?res = Ok p \<longleftrightarrow> (\<forall>r \<in> set rs. \<not> isAddressForbidden lib r)"
  proof (cases "find (isAddressForbidden lib) rs")
    case None
    then have "\<forall>r \<in> set rs. \<not> isAddressForbidden lib r"
      by (auto simp: find_None_iff)
    with first None show ?thesis by simp
  next
    case (Some r)
    then have "r \<in> set rs" and "isAddressForbidden lib r"
      by (auto simp: find_Some_iff)
    moreover from first Some have "?res \<noteq> Ok p" by simp
    ultimately show ?thesis by blast
  qed
  from first second third show ?thesis by blast
qed

theorem any_forbidden_address_denies_witness:
  "stub_URL ''http://example.com/a'' = Inr example_url \<and>
   protocol example_url = ''http:'' \<and>
   hostname example_url \<noteq> '''' \<and>
   \<not> isValid stub_ipaddr (hostname example_url) \<and>
   dnsCache guard_start (hostname example_url) = None \<and>
   resolveHostAddresses (stub_dns (Inr [''93.184.216.34'', ''10.0.0.1'']) (Inl ''queryAaaa ENODATA example.com''))
       (hostname example_url) = Inr [''93.184.216.34'', ''10.0.0.1''] \<and>
   fst (validateUrl stub_ipaddr stub_URL
          (stub_dns (Inr [''93.184.216.34'', ''10.0.0.1'']) (Inl ''queryAaaa ENODATA example.com''))
          guard_start ''http://example.com/a'')
     = Denied ''Refusing to access forbidden resolved address 10.0.0.1 for host example.com''"
proof -
  let ?dns = "stub_dns (Inr [''93.184.216.34'', ''10.0.0.1'']) (Inl ''queryAaaa ENODATA example.com'')"
  let ?rs = "[''93.184.216.34'', ''10.0.0.1'']"
  have h2: "protocol example_url = ''http:'' \<or> protocol example_url = ''https:''"
    by (simp add: example_url_fields)
  have h3: "hostname example_url \<noteq> ''''"
    by (simp add: example_url_fields)
  have h4: "\<not> isValid stub_ipaddr (hostname example_url)"
    by (simp add: example_url_fields stub_not_literal)
  have miss: "dnsCache guard_start (hostname example_url) = None"
    by (simp add: guard_start_def)
  have res: "resolveHostAddresses ?dns (hostname example_url) = Inr ?rs"
    by (simp add: resolveHostAddresses_def stub_dns_def)
  have h5: "dnsCache guard_start (hostname example_url) = Some ?rs \<or>
            (dnsCache guard_start (hostname example_url) = None \<and>
             resolveHostAddresses ?dns (hostname example_url) = Inr ?rs)"
    using miss res by simp
  have h6: "?rs \<noteq> []" by simp
  from any_forbidden_address_denies [where newURL = stub_URL and lib = stub_ipaddr
      and p = example_url and st = guard_start and dns = ?dns and rs = ?rs,
      OF stub_URL_example h2 h3 h4 h5 h6]
  have "fst (validateUrl stub_ipaddr stub_URL ?dns guard_start ''http://example.com/a'')
          = Denied ''Refusing to access forbidden resolved address 10.0.0.1 for host example.com''"
    by (simp add: stub_verdicts example_url_fields)
  with stub_URL_example h3 h4 miss res show ?thesis
    by (simp add: example_url_fields)
qed

text \<open>
  Claim C5, as the code has it. On a cache miss the resolution succeeds exactly when one
  of the two queries is fulfilled with at least one address. Otherwise each query was
  rejected or came back empty, in any combination, and \<^verbatim>\<open>validateUrl\<close> returns the denial
  "Failed to resolve hostname h: message", where the message is both rejection messages
  joined by "; " when both queries were rejected, the one rejection message when the
  other query came back empty, and a fixed text when both came back empty. The failure is
  a returned value, never an allow, and the cache is not written.
\<close>

theorem resolution_failure_denied:
  assumes "newURL u = Inr p"
    and "protocol p = ''http:'' \<or> protocol p = ''https:''"
    and "hostname p \<noteq> ''''"
    and "\<not> isValid lib (hostname p)"
    and "dnsCache st (hostname p) = None"
  shows "((\<exists>rs. resolveHostAddresses dns (hostname p) = Inr rs) \<longleftrightarrow>
            (\<exists>a. (resolve4 dns (hostname p) = Inr a \<or> resolve6 dns (hostname p) = Inr a)
                 \<and> a \<noteq> [])) \<and>
         ((\<forall>rs. resolveHostAddresses dns (hostname p) \<noteq> Inr rs) \<longrightarrow>
            (let message =
                   (case (resolve4 dns (hostname p), resolve6 dns (hostname p)) of
                      (Inl e4, Inl e6) \<Rightarrow> e4 @ ''; '' @ e6
                    | (Inl e4, Inr b) \<Rightarrow> e4
                    | (Inr a, Inl e6) \<Rightarrow> e6
                    | (Inr a, Inr b) \<Rightarrow> ''DNS lookup did not return any A or AAAA records'')
             in resolveHostAddresses dns (hostname p) = Inl message \<and>
                validateUrl lib newURL dns st u =
                  (Denied (''Failed to resolve hostname '' @ hostname p @ '': '' @ message),
                   st\<lparr>io := io st @ [CacheGet (hostname p),
                                       DnsResolve (hostname p) (Inl message)]\<rparr>)))"
proof -
  let ?h = "hostname p"
  let ?message = "case (resolve4 dns ?h, resolve6 dns ?h) of
                      (Inl e4, Inl e6) \<Rightarrow> e4 @ ''; '' @ e6
                    | (Inl e4, Inr b) \<Rightarrow> e4
                    | (Inr a, Inl e6) \<Rightarrow> e6
                    | (Inr a, Inr b) \<Rightarrow> ''DNS lookup did not return any A or AAAA records''"
  have succeeds: "(\<exists>rs. resolveHostAddresses dns ?h = Inr rs) \<longleftrightarrow>
            (\<exists>a. (resolve4 dns ?h = Inr a \<or> resolve6 dns ?h = Inr a) \<and> a \<noteq> [])"
    by (cases "resolve4 dns ?h"; cases "resolve6 dns ?h")
      (auto simp: resolveHostAddresses_cases)
  have fails: "resolveHostAddresses dns ?h = Inl ?message \<and>
               validateUrl lib newURL dns st u =
                 (Denied (''Failed to resolve hostname '' @ ?h @ '': '' @ ?message),
                  st\<lparr>io := io st @ [CacheGet ?h, DnsResolve ?h (Inl ?message)]\<rparr>)"
    if no: "\<forall>rs. resolveHostAddresses dns ?h \<noteq> Inr rs"
  proof -
    from no obtain e where e: "resolveHostAddresses dns ?h = Inl e"
      by (cases "resolveHostAddresses dns ?h") auto
    then have msg: "e = ?message"
      by (cases "resolve4 dns ?h"; cases "resolve6 dns ?h")
        (auto simp: resolveHostAddresses_cases split: if_splits)
    have "lookupRecords dns st ?h =
            (Inl (''Failed to resolve hostname '' @ ?h @ '': '' @ e),
             st\<lparr>io := io st @ [CacheGet ?h, DnsResolve ?h (Inl e)]\<rparr>)"
      by (simp add: lookupRecords_def assms(5) e)
    with validateUrl_resolved [where newURL = newURL and u = u and p = p and lib = lib
      and dns = dns and st = st, OF assms(1-4)]
    have "validateUrl lib newURL dns st u =
            (Denied (''Failed to resolve hostname '' @ ?h @ '': '' @ e),
             st\<lparr>io := io st @ [CacheGet ?h, DnsResolve ?h (Inl e)]\<rparr>)"
      by simp
    with e show ?thesis unfolding msg by simp
  qed
  from succeeds fails show ?thesis unfolding Let_def by blast
qed

theorem resolution_failure_denied_witness:
  "stub_URL ''http://example.com/a'' = Inr example_url \<and>
   protocol example_url = ''http:'' \<and>
   hostname example_url \<noteq> '''' \<and>
   \<not> isValid stub_ipaddr (hostname example_url) \<and>
   dnsCache guard_start (hostname example_url) = None \<and>
   validateUrl stub_ipaddr stub_URL
       (stub_dns (Inl ''queryA ETIMEOUT example.com'') (Inl ''queryAaaa ETIMEOUT example.com''))
       guard_start ''http://example.com/a''
     = (Denied ''Failed to resolve hostname example.com: queryA ETIMEOUT example.com; queryAaaa ETIMEOUT example.com'',
        guard_start\<lparr>io := [CacheGet ''example.com'',
                           DnsResolve ''example.com''
                             (Inl ''queryA ETIMEOUT example.com; queryAaaa ETIMEOUT example.com'')]\<rparr>)"
proof -
  let ?dns = "stub_dns (Inl ''queryA ETIMEOUT example.com'') (Inl ''queryAaaa ETIMEOUT example.com'')"
  have h2: "protocol example_url = ''http:'' \<or> protocol example_url = ''https:''"
    by (simp add: example_url_fields)
  have h3: "hostname example_url \<noteq> ''''"
    by (simp add: example_url_fields)
  have h4: "\<not> isValid stub_ipaddr (hostname example_url)"
    by (simp add: example_url_fields stub_not_literal)
  have h5: "dnsCache guard_start (hostname example_url) = None"
    by (simp add: guard_start_def)
  have none: "\<forall>rs. resolveHostAddresses ?dns (hostname example_url) \<noteq> Inr rs"
    by (simp add: resolveHostAddresses_def stub_dns_def)
  from resolution_failure_denied [where newURL = stub_URL and lib = stub_ipaddr
      and p = example_url and st = guard_start and dns = ?dns,
      OF stub_URL_example h2 h3 h4 h5] none
  have "validateUrl stub_ipaddr stub_URL ?dns guard_start ''http://example.com/a''
     = (Denied ''Failed to resolve hostname example.com: queryA ETIMEOUT example.com; queryAaaa ETIMEOUT example.com'',
        guard_start\<lparr>io := [CacheGet ''example.com'',
                           DnsResolve ''example.com''
                             (Inl ''queryA ETIMEOUT example.com; queryAaaa ETIMEOUT example.com'')]\<rparr>)"
    by (simp add: example_url_fields stub_dns_def guard_start_def Let_def)
  with stub_URL_example h3 h4 h5 show ?thesis
    by (simp add: example_url_fields)
qed

text \<open>
  The claim as worded fails where the A query is rejected and the AAAA query is fulfilled
  with no address: the resolution fails although neither did both queries fail nor did
  both return empty, and the reason carries one message only.
\<close>

theorem resolution_failure_counterexample:
  "resolveHostAddresses (stub_dns (Inl ''queryA ENODATA example.com'') (Inr [])) ''example.com''
     = Inl ''queryA ENODATA example.com'' \<and>
   \<not> (isl (resolve4 (stub_dns (Inl ''queryA ENODATA example.com'') (Inr [])) ''example.com'') \<and>
      isl (resolve6 (stub_dns (Inl ''queryA ENODATA example.com'') (Inr [])) ''example.com'')) \<and>
   \<not> (resolve4 (stub_dns (Inl ''queryA ENODATA example.com'') (Inr [])) ''example.com'' = Inr [] \<and>
      resolve6 (stub_dns (Inl ''queryA ENODATA example.com'') (Inr [])) ''example.com'' = Inr []) \<and>
   fst (validateUrl stub_ipaddr stub_URL (stub_dns (Inl ''queryA ENODATA example.com'') (Inr []))
          guard_start ''http://example.com/a'')
     = Denied ''Failed to resolve hostname example.com: queryA ENODATA example.com''"
  by (simp add: resolveHostAddresses_def stub_dns_def validateUrl_def lookupRecords_def
      stub_URL_example example_url_fields stub_not_literal guard_start_def Let_def)

text \<open>
  Claim C9. In every state the module can reach, each entry of the cache is a non-empty
  list that a resolution of that host returned, and so is every list ever passed to
  \<^verbatim>\<open>dnsCache.set\<close>. A call of \<^verbatim>\<open>validateUrl\<close> either leaves the cache as it was or adds,
  for the host of its URL, which had no entry, the non-empty list its resolution gave;
  when that resolution fails the cache is left as it was.
\<close>

theorem cache_holds_successful_resolutions:
  assumes "reachable lib newURL st"
  shows "(\<forall>h rs. dnsCache st h = Some rs \<longrightarrow> rs \<noteq> [] \<and> DnsResolve h (Inr rs) \<in> set (io st)) \<and>
         (\<forall>h rs. CacheSet h rs \<in> set (io st) \<longrightarrow> rs \<noteq> [] \<and> DnsResolve h (Inr rs) \<in> set (io st)) \<and>
         (\<forall>dns u res st'. validateUrl lib newURL dns st u = (res, st') \<longrightarrow>
            dnsCache st' = dnsCache st \<or>
            (\<exists>p rs. newURL u = Inr p \<and> dnsCache st (hostname p) = None \<and>
                    resolveHostAddresses dns (hostname p) = Inr rs \<and> rs \<noteq> [] \<and>
                    dnsCache st' = (dnsCache st)(hostname p \<mapsto> rs))) \<and>
         (\<forall>dns u p e. newURL u = Inr p \<and> resolveHostAddresses dns (hostname p) = Inl e \<longrightarrow>
            dnsCache (snd (validateUrl lib newURL dns st u)) = dnsCache st)"
proof -
  from assms have "cache_ok st" by (rule reachable_cache_ok)
  then have inv: "(\<forall>h rs. dnsCache st h = Some rs \<longrightarrow> rs \<noteq> [] \<and> DnsResolve h (Inr rs) \<in> set (io st)) \<and>
         (\<forall>h rs. CacheSet h rs \<in> set (io st) \<longrightarrow> rs \<noteq> [] \<and> DnsResolve h (Inr rs) \<in> set (io st))"
    by (simp add: cache_ok_def)
  have step: "dnsCache st' = dnsCache st \<or>
            (\<exists>p rs. newURL u = Inr p \<and> dnsCache st (hostname p) = None \<and>
                    resolveHostAddresses dns (hostname p) = Inr rs \<and> rs \<noteq> [] \<and>
                    dnsCache st' = (dnsCache st)(hostname p \<mapsto> rs))"
    if "validateUrl lib newURL dns st u = (res, st')" for dns u res st'
  proof -
    from validateUrl_state [OF that]
    consider "st' = st"
      | p x where "newURL u = Inr p" "lookupRecords dns st (hostname p) = (x, st')"
      by blast
    then show ?thesis
    proof cases
      case 1
      then show ?thesis by simp
    next
      case 2
      from lookupRecords_steps [OF 2(2)] 2(1) show ?thesis
        by auto
    qed
  qed
  have failed: "dnsCache (snd (validateUrl lib newURL dns st u)) = dnsCache st"
    if "newURL u = Inr p" "resolveHostAddresses dns (hostname p) = Inl e" for dns u p e
  proof -
    obtain res st' where v: "validateUrl lib newURL dns st u = (res, st')"
      by (cases "validateUrl lib newURL dns st u")
    from step [OF v] that have "dnsCache st' = dnsCache st" by auto
    with v show ?thesis by simp
  qed
  from inv step failed show ?thesis by blast
qed

theorem cache_holds_successful_resolutions_witness:
  "reachable stub_ipaddr stub_URL guard_after_example \<and>
   dnsCache guard_after_example ''example.com'' = Some [''93.184.216.34''] \<and>
   DnsResolve ''example.com'' (Inr [''93.184.216.34'']) \<in> set (io guard_after_example) \<and>
   stub_URL ''http://example.com/a'' = Inr example_url \<and>
   resolveHostAddresses (stub_dns (Inl ''queryA ETIMEOUT example.com'') (Inr []))
       (hostname example_url) = Inl ''queryA ETIMEOUT example.com'' \<and>
   dnsCache (snd (validateUrl stub_ipaddr stub_URL
                    (stub_dns (Inl ''queryA ETIMEOUT example.com'') (Inr []))
                    guard_after_example ''http://example.com/a''))
     = dnsCache guard_after_example"
proof -
  let ?dns = "stub_dns (Inl ''queryA ETIMEOUT example.com'') (Inr [])"
  have c: "dnsCache guard_after_example ''example.com'' = Some [''93.184.216.34'']"
    by (simp add: guard_after_example_def)
  have f: "resolveHostAddresses ?dns (hostname example_url) = Inl ''queryA ETIMEOUT example.com''"
    by (simp add: resolveHostAddresses_def stub_dns_def)
  from cache_holds_successful_resolutions [OF reachable_after_example]
  have "DnsResolve ''example.com'' (Inr [''93.184.216.34'']) \<in> set (io guard_after_example)"
    and "dnsCache (snd (validateUrl stub_ipaddr stub_URL ?dns guard_after_example
                          ''http://example.com/a''))
           = dnsCache guard_after_example"
    using c f stub_URL_example by blast+
  with reachable_after_example c f stub_URL_example show ?thesis by simp
qed

text \<open>
  Claim C10. In every state the module can reach, whenever the step through the cache and
  the resolver hands records on to the emptiness check of \<^verbatim>\<open>validateUrl\<close>, the records
  are not empty; and no call returns the denial "DNS lookup for h did not return any
  addresses", for any host \<open>h\<close>.
\<close>

theorem empty_records_denial_unreachable:
  assumes "reachable lib newURL st"
  shows "(lookupRecords dns st host = (Inr rs, st') \<longrightarrow> rs \<noteq> []) \<and>
         fst (validateUrl lib newURL dns st u)
           \<noteq> Denied (''DNS lookup for '' @ h @ '' did not return any addresses'')"
proof
  from assms have ok: "cache_ok st" by (rule reachable_cache_ok)
  show records: "lookupRecords dns st host = (Inr rs, st') \<longrightarrow> rs \<noteq> []" for dns host rs st'
  proof
    assume "lookupRecords dns st host = (Inr rs, st')"
    from lookupRecords_steps [OF this] ok show "rs \<noteq> []"
      by (auto simp: cache_ok_def)
  qed
  show "fst (validateUrl lib newURL dns st u)
          \<noteq> Denied (''DNS lookup for '' @ h @ '' did not return any addresses'')"
  proof (cases "lookupRecords dns st (hostname (projr (newURL u)))")
    case (Pair x st'')
    show ?thesis
    proof (cases x)
      case (Inl reason)
      with Pair lookupRecords_steps [OF Pair] show ?thesis
        by (auto simp: validateUrl_def Let_def checkRecords_find
            split: sum.splits option.splits)
    next
      case (Inr records)
      with Pair records have "records \<noteq> []" by blast
      with Pair Inr show ?thesis
        by (auto simp: validateUrl_def Let_def checkRecords_find
            split: sum.splits option.splits)
    qed
  qed
qed

theorem empty_records_denial_unreachable_witness:
  "reachable stub_ipaddr stub_URL guard_after_example \<and>
   lookupRecords (stub_dns (Inr []) (Inr [])) guard_after_example ''example.com''
     = (Inr [''93.184.216.34''],
        guard_after_example\<lparr>io := io guard_after_example @ [CacheGet ''example.com'']\<rparr>) \<and>
   [''93.184.216.34''] \<noteq> ([] :: string list) \<and>
   fst (validateUrl stub_ipaddr stub_URL (stub_dns (Inr []) (Inr [])) guard_after_example
          ''http://example.com/a'')
     \<noteq> Denied ''DNS lookup for example.com did not return any addresses''"
proof -
  let ?dns = "stub_dns (Inr []) (Inr [])"
  have l: "lookupRecords ?dns guard_after_example ''example.com''
     = (Inr [''93.184.216.34''],
        guard_after_example\<lparr>io := io guard_after_example @ [CacheGet ''example.com'']\<rparr>)"
    by (simp add: lookupRecords_def guard_after_example_def)
  from empty_records_denial_unreachable [OF reachable_after_example, where dns = ?dns
      and host = "''example.com''" and u = "''http://example.com/a''" and h = "''example.com''"]
    reachable_after_example l
  show ?thesis by simp
qed

section \<open>Properties of the admission limiter\<close>

lemma Math_min_Min: "ts \<noteq> [] \<Longrightarrow> Math_min ts = Num (Min (set ts))"
proof (induction ts)
  case Nil
  then show ?case by simp
next
  case (Cons t ts)
  show ?case
  proof (cases "ts = []")
    case True
    then show ?thesis by simp
  next
    case False
    with Cons.IH have "Math_min ts = Num (Min (set ts))" by simp
    with False show ?thesis by simp
  qed
qed

lemma Min_in_window:
  assumes "ts \<noteq> []" and "\<forall>t \<in> set ts. now - w < t"
  shows "now - w < Min (set ts)"
  using assms by simp

text \<open>The two outcomes of one call.\<close>

lemma rateLimiter_denies:
  assumes "maxRequests \<le> int (length
             (filter (\<lambda>t. now - windowMs < t)
                (case rateLimitStore st (getClientIp address) of None \<Rightarrow> [] | Some ts \<Rightarrow> ts)))"
  shows "rateLimiter maxRequests windowMs st address now =
           (TooManyRequests
              (case Math_min (filter (\<lambda>t. now - windowMs < t)
                     (case rateLimitStore st (getClientIp address) of None \<Rightarrow> [] | Some ts \<Rightarrow> ts)) of
                 Infinity \<Rightarrow> Infinity
               | Num oldest \<Rightarrow> Num \<lceil>real_of_int (oldest + windowMs - now) / 1000\<rceil>), st)"
  using assms by (simp add: rateLimiter_def Let_def)

lemma rateLimiter_admits:
  assumes "int (length
             (filter (\<lambda>t. now - windowMs < t)
                (case rateLimitStore st (getClientIp address) of None \<Rightarrow> [] | Some ts \<Rightarrow> ts)))
           < maxRequests"
  shows "rateLimiter maxRequests windowMs st address now =
           (Next,
            st\<lparr>rateLimitStore := (rateLimitStore st)(getClientIp address \<mapsto>
                  filter (\<lambda>t. now - windowMs < t)
                    (case rateLimitStore st (getClientIp address) of None \<Rightarrow> [] | Some ts \<Rightarrow> ts)
                  @ [now]),
               setCalls := setCalls st @ [(getClientIp address,
                  filter (\<lambda>t. now - windowMs < t)
                    (case rateLimitStore st (getClientIp address) of None \<Rightarrow> [] | Some ts \<Rightarrow> ts)
                  @ [now])]\<rparr>)"
  using assms by (simp add: rateLimiter_def Let_def)

lemma fresh_caller_scenario:
  fixes t1 t2 t3 t4 t5 t6 t7 :: int
  assumes fresh: "rateLimitStore st (getClientIp address) = None"
    and order: "t1 \<le> t2" "t2 \<le> t3" "t3 \<le> t4" "t4 \<le> t5" "t5 \<le> t6"
    and within: "t6 < t1 + RATE_LIMIT_WINDOW_MS"
    and elapsed: "t1 + RATE_LIMIT_WINDOW_MS \<le> t7"
  shows "fst (rateLimiterCalls RATE_LIMIT_REQUESTS RATE_LIMIT_WINDOW_MS st address
                [t1, t2, t3, t4, t5, t6, t7])
           = [Next, Next, Next, Next, Next,
              TooManyRequests (Num \<lceil>real_of_int (t1 + RATE_LIMIT_WINDOW_MS - t6) / 1000\<rceil>),
              Next]"
    and "0 < \<lceil>real_of_int (t1 + RATE_LIMIT_WINDOW_MS - t6) / 1000\<rceil>"
proof -
  let ?ip = "getClientIp address"
  let ?m = RATE_LIMIT_REQUESTS and ?w = RATE_LIMIT_WINDOW_MS
  define s1 where "s1 = st\<lparr>rateLimitStore := (rateLimitStore st)(?ip \<mapsto> [t1]),
                             setCalls := setCalls st @ [(?ip, [t1])]\<rparr>"
  define s2 where "s2 = s1\<lparr>rateLimitStore := (rateLimitStore s1)(?ip \<mapsto> [t1, t2]),
                             setCalls := setCalls s1 @ [(?ip, [t1, t2])]\<rparr>"
  define s3 where "s3 = s2\<lparr>rateLimitStore := (rateLimitStore s2)(?ip \<mapsto> [t1, t2, t3]),
                             setCalls := setCalls s2 @ [(?ip, [t1, t2, t3])]\<rparr>"
  define s4 where "s4 = s3\<lparr>rateLimitStore := (rateLimitStore s3)(?ip \<mapsto> [t1, t2, t3, t4]),
                             setCalls := setCalls s3 @ [(?ip, [t1, t2, t3, t4])]\<rparr>"
  define s5 where "s5 = s4\<lparr>rateLimitStore := (rateLimitStore s4)(?ip \<mapsto> [t1, t2, t3, t4, t5]),
                             setCalls := setCalls s4 @ [(?ip, [t1, t2, t3, t4, t5])]\<rparr>"
  have w: "?w = 60000" and m: "?m = 5"
    by (simp_all add: RATE_LIMIT_WINDOW_MS_def RATE_LIMIT_REQUESTS_def)
  have c1: "rateLimiter ?m ?w st address t1 = (Next, s1)"
    using fresh by (simp add: rateLimiter_def Let_def m s1_def)
  have g1: "rateLimitStore s1 ?ip = Some [t1]" by (simp add: s1_def)
  have c2: "rateLimiter ?m ?w s1 address t2 = (Next, s2)"
    using g1 order within by (simp add: rateLimiter_def Let_def m w s2_def)
  have g2: "rateLimitStore s2 ?ip = Some [t1, t2]" by (simp add: s2_def)
  have c3: "rateLimiter ?m ?w s2 address t3 = (Next, s3)"
    using g2 order within by (simp add: rateLimiter_def Let_def m w s3_def)
  have g3: "rateLimitStore s3 ?ip = Some [t1, t2, t3]" by (simp add: s3_def)
  have c4: "rateLimiter ?m ?w s3 address t4 = (Next, s4)"
    using g3 order within by (simp add: rateLimiter_def Let_def m w s4_def)
  have g4: "rateLimitStore s4 ?ip = Some [t1, t2, t3, t4]" by (simp add: s4_def)
  have c5: "rateLimiter ?m ?w s4 address t5 = (Next, s5)"
    using g4 order within by (simp add: rateLimiter_def Let_def m w s5_def)
  have g5: "rateLimitStore s5 ?ip = Some [t1, t2, t3, t4, t5]" by (simp add: s5_def)
  have keep: "filter (\<lambda>t. t6 - ?w < t) [t1, t2, t3, t4, t5] = [t1, t2, t3, t4, t5]"
    using order within by (simp add: w)
  have oldest: "Math_min [t1, t2, t3, t4, t5] = Num t1"
    using order by simp
  have c6: "rateLimiter ?m ?w s5 address t6
              = (TooManyRequests (Num \<lceil>real_of_int (t1 + ?w - t6) / 1000\<rceil>), s5)"
    using rateLimiter_denies [of ?m t6 ?w s5 address] g5 keep oldest
    by (simp add: m)
  have "length (filter (\<lambda>t. t7 - ?w < t) [t1, t2, t3, t4, t5])
          < length [t1, t2, t3, t4, t5]"
    using elapsed by (intro length_filter_less [of t1]) simp_all
  then have "int (length (filter (\<lambda>t. t7 - ?w < t)
                (case rateLimitStore s5 ?ip of None \<Rightarrow> [] | Some ts \<Rightarrow> ts))) < ?m"
    using g5 by (simp add: m)
  from rateLimiter_admits [OF this]
  have c7: "fst (rateLimiter ?m ?w s5 address t7) = Next"
    by simp
  show "fst (rateLimiterCalls ?m ?w st address [t1, t2, t3, t4, t5, t6, t7])
           = [Next, Next, Next, Next, Next,
              TooManyRequests (Num \<lceil>real_of_int (t1 + ?w - t6) / 1000\<rceil>),
              Next]"
    using c7 by (cases "rateLimiter ?m ?w s5 address t7") (simp add: c1 c2 c3 c4 c5 c6)
  show "0 < \<lceil>real_of_int (t1 + ?w - t6) / 1000\<rceil>"
    using within by simp
qed

text \<open>
  Claim C7. With \<open>windowStart = now - windowMs\<close> and \<open>remaining\<close> the caller's stored time
  stamps without those \<open>\<le> windowStart\<close>: when \<open>remaining\<close> has at least \<open>maxRequests\<close>
  elements the call is denied, the state is untouched and \<open>retryAfter\<close> is
  \<open>\<lceil>(Min remaining + windowMs - now) / 1000\<rceil>\<close> (\<^verbatim>\<open>Infinity\<close> when nothing remains, which
  needs \<open>maxRequests \<le> 0\<close>), a number that is strictly positive; otherwise \<open>now\<close> is
  appended, the list is stored for the caller and the request passes. With the defaults,
  5 requests per 60000 ms: five calls of a caller without an entry, at times \<open>t1 \<le> \<dots> \<le> t5\<close>,
  all pass; a sixth at \<open>t6 \<ge> t5\<close> inside the window of the first is denied with a positive
  \<open>retryAfter\<close>; and a call at \<open>t7\<close>, once the window of the first has elapsed, passes.
\<close>

theorem sliding_window_decision:
  "(let ip = getClientIp address;
        windowStart = now - windowMs;
        remaining = filter (\<lambda>t. \<not> t \<le> windowStart)
                      (case rateLimitStore st ip of None \<Rightarrow> [] | Some ts \<Rightarrow> ts)
    in (maxRequests \<le> int (length remaining) \<longrightarrow>
          rateLimiter maxRequests windowMs st address now =
            (TooManyRequests
               (if remaining = [] then Infinity
                else Num \<lceil>real_of_int (Min (set remaining) + windowMs - now) / 1000\<rceil>), st)) \<and>
       (remaining \<noteq> [] \<longrightarrow>
          0 < \<lceil>real_of_int (Min (set remaining) + windowMs - now) / 1000\<rceil>) \<and>
       (1 \<le> maxRequests \<and> maxRequests \<le> int (length remaining) \<longrightarrow> remaining \<noteq> []) \<and>
       (int (length remaining) < maxRequests \<longrightarrow>
          rateLimiter maxRequests windowMs st address now =
            (Next,
             st\<lparr>rateLimitStore := (rateLimitStore st)(ip \<mapsto> remaining @ [now]),
                setCalls := setCalls st @ [(ip, remaining @ [now])]\<rparr>))) \<and>
   (rateLimitStore st (getClientIp address) = None \<and>
    t1 \<le> t2 \<and> t2 \<le> t3 \<and> t3 \<le> t4 \<and> t4 \<le> t5 \<and> t5 \<le> t6 \<and>
    t6 < t1 + RATE_LIMIT_WINDOW_MS \<and> t1 + RATE_LIMIT_WINDOW_MS \<le> t7 \<longrightarrow>
      fst (rateLimiterCalls RATE_LIMIT_REQUESTS RATE_LIMIT_WINDOW_MS st address
             [t1, t2, t3, t4, t5, t6, t7])
        = [Next, Next, Next, Next, Next,
           TooManyRequests (Num \<lceil>real_of_int (t1 + RATE_LIMIT_WINDOW_MS - t6) / 1000\<rceil>),
           Next] \<and>
      0 < \<lceil>real_of_int (t1 + RATE_LIMIT_WINDOW_MS - t6) / 1000\<rceil>)"
proof -
  let ?ip = "getClientIp address"
  let ?remaining = "filter (\<lambda>t. \<not> t \<le> now - windowMs)
                      (case rateLimitStore st ?ip of None \<Rightarrow> [] | Some ts \<Rightarrow> ts)"
  have same: "?remaining = filter (\<lambda>t. now - windowMs < t)
                      (case rateLimitStore st ?ip of None \<Rightarrow> [] | Some ts \<Rightarrow> ts)"
    by (simp add: not_le)
  have deny: "rateLimiter maxRequests windowMs st address now =
            (TooManyRequests
               (if ?remaining = [] then Infinity
                else Num \<lceil>real_of_int (Min (set ?remaining) + windowMs - now) / 1000\<rceil>), st)"
    if "maxRequests \<le> int (length ?remaining)"
  proof (cases "?remaining = []")
    case True
    with that rateLimiter_denies [of maxRequests now windowMs st address] same
    show ?thesis by simp
  next
    case False
    from Math_min_Min [OF False] that
      rateLimiter_denies [of maxRequests now windowMs st address] same False
    show ?thesis by simp
  qed
  have positive: "0 < \<lceil>real_of_int (Min (set ?remaining) + windowMs - now) / 1000\<rceil>"
    if "?remaining \<noteq> []"
  proof -
    have "\<forall>t \<in> set ?remaining. now - windowMs < t" by auto
    from Min_in_window [OF that this] show ?thesis by simp
  qed
  have nonempty: "?remaining \<noteq> []"
    if "1 \<le> maxRequests \<and> maxRequests \<le> int (length ?remaining)"
    using that by auto
  have admit: "rateLimiter maxRequests windowMs st address now =
            (Next,
             st\<lparr>rateLimitStore := (rateLimitStore st)(?ip \<mapsto> ?remaining @ [now]),
                setCalls := setCalls st @ [(?ip, ?remaining @ [now])]\<rparr>)"
    if "int (length ?remaining) < maxRequests"
    using that rateLimiter_admits [of now windowMs st address maxRequests] same by simp
  from deny positive nonempty admit
    fresh_caller_scenario [of st address t1 t2 t3 t4 t5 t6 t7]
  show ?thesis unfolding Let_def by blast
qed

theorem sliding_window_decision_witness:
  "rateLimitStore limiter_start (getClientIp (Some ''203.0.113.7'')) = None \<and>
   (6000 :: int) < 1000 + RATE_LIMIT_WINDOW_MS \<and> 1000 + RATE_LIMIT_WINDOW_MS \<le> (61000 :: int) \<and>
   fst (rateLimiterCalls RATE_LIMIT_REQUESTS RATE_LIMIT_WINDOW_MS limiter_start
          (Some ''203.0.113.7'') [1000, 2000, 3000, 4000, 5000, 6000, 61000])
     = [Next, Next, Next, Next, Next, TooManyRequests (Num 55), Next] \<and>
   RATE_LIMIT_REQUESTS \<le> int (length [1000, 2000, 3000, 4000, 5000 :: int]) \<and>
   rateLimiter RATE_LIMIT_REQUESTS RATE_LIMIT_WINDOW_MS limiter_full (Some ''203.0.113.7'') 6000
     = (TooManyRequests (Num 55), limiter_full) \<and>
   int (length [2000, 3000, 4000, 5000 :: int]) < RATE_LIMIT_REQUESTS \<and>
   rateLimiter RATE_LIMIT_REQUESTS RATE_LIMIT_WINDOW_MS limiter_full (Some ''203.0.113.7'') 61000
     = (Next,
        limiter_full\<lparr>rateLimitStore := (rateLimitStore limiter_full)
                        (''203.0.113.7'' \<mapsto> [2000, 3000, 4000, 5000, 61000]),
                     setCalls := setCalls limiter_full
                        @ [(''203.0.113.7'', [2000, 3000, 4000, 5000, 61000])]\<rparr>)"
proof -
  let ?a = "Some ''203.0.113.7''"
  have scenario: "fst (rateLimiterCalls RATE_LIMIT_REQUESTS RATE_LIMIT_WINDOW_MS limiter_start
          ?a [1000, 2000, 3000, 4000, 5000, 6000, 61000])
     = [Next, Next, Next, Next, Next, TooManyRequests (Num 55), Next]"
    using sliding_window_decision [where st = limiter_start and address = ?a
        and ?t1.0 = 1000 and ?t2.0 = 2000 and ?t3.0 = 3000 and ?t4.0 = 4000 and ?t5.0 = 5000
        and ?t6.0 = 6000 and ?t7.0 = 61000]
    by (simp add: getClientIp_def limiter_start_def RATE_LIMIT_WINDOW_MS_def)
  have denied: "rateLimiter RATE_LIMIT_REQUESTS RATE_LIMIT_WINDOW_MS limiter_full ?a 6000
     = (TooManyRequests (Num 55), limiter_full)"
    using sliding_window_decision [where st = limiter_full and address = ?a
        and maxRequests = RATE_LIMIT_REQUESTS and windowMs = RATE_LIMIT_WINDOW_MS
        and now = 6000]
    by (simp add: getClientIp_def limiter_full_def RATE_LIMIT_WINDOW_MS_def
        RATE_LIMIT_REQUESTS_def Let_def)
  have admitted: "rateLimiter RATE_LIMIT_REQUESTS RATE_LIMIT_WINDOW_MS limiter_full ?a 61000
     = (Next,
        limiter_full\<lparr>rateLimitStore := (rateLimitStore limiter_full)
                        (''203.0.113.7'' \<mapsto> [2000, 3000, 4000, 5000, 61000]),
                     setCalls := setCalls limiter_full
                        @ [(''203.0.113.7'', [2000, 3000, 4000, 5000, 61000])]\<rparr>)"
    using sliding_window_decision [where st = limiter_full and address = ?a
        and maxRequests = RATE_LIMIT_REQUESTS and windowMs = RATE_LIMIT_WINDOW_MS
        and now = 61000]
    by (simp add: getClientIp_def limiter_full_def RATE_LIMIT_WINDOW_MS_def
        RATE_LIMIT_REQUESTS_def Let_def)
  show ?thesis
    using scenario denied admitted
    by (simp add: getClientIp_def limiter_start_def RATE_LIMIT_WINDOW_MS_def
        RATE_LIMIT_REQUESTS_def)
qed

text \<open>
  Claim C6, as the code has it. Only an admitted call writes to the store: it stores, for
  the caller, the trimmed list with \<open>now\<close> appended, by one call of
  \<^verbatim>\<open>rateLimitStore.set\<close>. A denied call returns before any write and leaves the store and
  the sequence of writes exactly as they were.
\<close>

theorem store_written_only_on_admission:
  assumes "rateLimiter maxRequests windowMs st address now = (r, st')"
  shows "(r = Next \<longrightarrow>
            rateLimitStore st' =
              (rateLimitStore st)(getClientIp address \<mapsto>
                 filter (\<lambda>t. now - windowMs < t)
                   (case rateLimitStore st (getClientIp address) of None \<Rightarrow> [] | Some ts \<Rightarrow> ts)
                 @ [now]) \<and>
            setCalls st' =
              setCalls st @ [(getClientIp address,
                 filter (\<lambda>t. now - windowMs < t)
                   (case rateLimitStore st (getClientIp address) of None \<Rightarrow> [] | Some ts \<Rightarrow> ts)
                 @ [now])]) \<and>
         (r \<noteq> Next \<longrightarrow> st' = st)"
proof (cases "maxRequests \<le> int (length
             (filter (\<lambda>t. now - windowMs < t)
                (case rateLimitStore st (getClientIp address) of None \<Rightarrow> [] | Some ts \<Rightarrow> ts)))")
  case True
  from rateLimiter_denies [OF True] assms show ?thesis by auto
next
  case False
  then have "int (length
             (filter (\<lambda>t. now - windowMs < t)
                (case rateLimitStore st (getClientIp address) of None \<Rightarrow> [] | Some ts \<Rightarrow> ts)))
           < maxRequests" by simp
  from rateLimiter_admits [OF this] assms show ?thesis by auto
qed

theorem store_written_only_on_admission_witness:
  "rateLimiter RATE_LIMIT_REQUESTS RATE_LIMIT_WINDOW_MS limiter_full (Some ''203.0.113.7'') 6000
     = (TooManyRequests (Num 55), limiter_full) \<and>
   TooManyRequests (Num 55) \<noteq> Next \<and>
   rateLimiter RATE_LIMIT_REQUESTS RATE_LIMIT_WINDOW_MS limiter_full (Some ''203.0.113.7'') 61000
     = (Next,
        limiter_full\<lparr>rateLimitStore := (rateLimitStore limiter_full)
                        (''203.0.113.7'' \<mapsto> [2000, 3000, 4000, 5000, 61000]),
                     setCalls := setCalls limiter_full
                        @ [(''203.0.113.7'', [2000, 3000, 4000, 5000, 61000])]\<rparr>) \<and>
   setCalls (snd (rateLimiter RATE_LIMIT_REQUESTS RATE_LIMIT_WINDOW_MS limiter_full
                    (Some ''203.0.113.7'') 61000))
     = setCalls limiter_full @ [(''203.0.113.7'', [2000, 3000, 4000, 5000, 61000])]"
proof -
  have later: "rateLimiter RATE_LIMIT_REQUESTS RATE_LIMIT_WINDOW_MS limiter_full
                 (Some ''203.0.113.7'') 61000
     = (Next,
        limiter_full\<lparr>rateLimitStore := (rateLimitStore limiter_full)
                        (''203.0.113.7'' \<mapsto> [2000, 3000, 4000, 5000, 61000]),
                     setCalls := setCalls limiter_full
                        @ [(''203.0.113.7'', [2000, 3000, 4000, 5000, 61000])]\<rparr>)"
    by (simp add: limiter_defs limiter_full_def)
  from store_written_only_on_admission [OF sixth_call_denied]
    store_written_only_on_admission [OF later] sixth_call_denied later
  show ?thesis
    by (simp add: limiter_full_def getClientIp_def RATE_LIMIT_WINDOW_MS_def)
qed

text \<open>
  The claim as worded fails at the sixth call of a caller inside one window: the call is
  denied and no write of the trimmed list follows, the sequence of writes is as long as
  before. Where the limit is configured as 0, the first call of a caller is denied and the
  store has no entry for the caller afterwards, not the (empty) trimmed list.
\<close>

theorem denied_call_persists_trim_counterexample:
  "rateLimiterCalls RATE_LIMIT_REQUESTS RATE_LIMIT_WINDOW_MS limiter_start
       (Some ''203.0.113.7'') [1000, 2000, 3000, 4000, 5000]
     = ([Next, Next, Next, Next, Next], limiter_full) \<and>
   rateLimiter RATE_LIMIT_REQUESTS RATE_LIMIT_WINDOW_MS limiter_full (Some ''203.0.113.7'') 6000
     = (TooManyRequests (Num 55), limiter_full) \<and>
   setCalls (snd (rateLimiter RATE_LIMIT_REQUESTS RATE_LIMIT_WINDOW_MS limiter_full
                    (Some ''203.0.113.7'') 6000))
     \<noteq> setCalls limiter_full @ [(''203.0.113.7'', [1000, 2000, 3000, 4000, 5000])] \<and>
   length (setCalls (snd (rateLimiter RATE_LIMIT_REQUESTS RATE_LIMIT_WINDOW_MS limiter_full
                            (Some ''203.0.113.7'') 6000)))
     = length (setCalls limiter_full) \<and>
   rateLimiter 0 RATE_LIMIT_WINDOW_MS limiter_start (Some ''203.0.113.7'') 1000
     = (TooManyRequests Infinity, limiter_start) \<and>
   rateLimitStore (snd (rateLimiter 0 RATE_LIMIT_WINDOW_MS limiter_start
                          (Some ''203.0.113.7'') 1000)) ''203.0.113.7''
     \<noteq> Some []"
proof (intro conjI)
  show "rateLimiterCalls RATE_LIMIT_REQUESTS RATE_LIMIT_WINDOW_MS limiter_start
          (Some ''203.0.113.7'') [1000, 2000, 3000, 4000, 5000]
        = ([Next, Next, Next, Next, Next], limiter_full)"
    by (rule five_calls_fill)
  show "rateLimiter RATE_LIMIT_REQUESTS RATE_LIMIT_WINDOW_MS limiter_full
          (Some ''203.0.113.7'') 6000
        = (TooManyRequests (Num 55), limiter_full)"
    by (rule sixth_call_denied)
  show "setCalls (snd (rateLimiter RATE_LIMIT_REQUESTS RATE_LIMIT_WINDOW_MS limiter_full
                    (Some ''203.0.113.7'') 6000))
     \<noteq> setCalls limiter_full @ [(''203.0.113.7'', [1000, 2000, 3000, 4000, 5000])]"
    by (simp add: sixth_call_denied)
  show "length (setCalls (snd (rateLimiter RATE_LIMIT_REQUESTS RATE_LIMIT_WINDOW_MS
                                 limiter_full (Some ''203.0.113.7'') 6000)))
     = length (setCalls limiter_full)"
    by (simp add: sixth_call_denied)
  have zero: "rateLimiter 0 RATE_LIMIT_WINDOW_MS limiter_start (Some ''203.0.113.7'') 1000
                = (TooManyRequests Infinity, limiter_start)"
    by (simp add: limiter_defs limiter_start_def)
  then show "rateLimiter 0 RATE_LIMIT_WINDOW_MS limiter_start (Some ''203.0.113.7'') 1000
                = (TooManyRequests Infinity, limiter_start)" .
  from zero show "rateLimitStore (snd (rateLimiter 0 RATE_LIMIT_WINDOW_MS limiter_start
                          (Some ''203.0.113.7'') 1000)) ''203.0.113.7''
     \<noteq> Some []"
    by (simp add: limiter_start_def)
qed

end
